theory Spec2Isabelle
  imports Main
begin

section \<open>The migration engine of customable-corporate-site-api\<close>

text \<open>
  A shallow embedding of \<^verbatim>\<open>internal/database/migrations/migration.go\<close>, of
  \<^verbatim>\<open>cmd/migrate/main.go\<close> and of the step \<^verbatim>\<open>versions/003_seed_admin_user.go\<close>.

  The database behind \<^verbatim>\<open>*gorm.DB\<close> is explicit state: the \<^verbatim>\<open>migrations\<close> table (absent
  until \<^verbatim>\<open>AutoMigrate\<close> creates it, absent again after \<^verbatim>\<open>DropTable\<close>) and the rest of the
  database. A step closure receives the transaction handle, so it is a function on the
  whole database, ledger table included. A Go function returning \<^verbatim>\<open>error\<close> becomes a
  function returning \<open>error option\<close> (\<open>None\<close> is \<^verbatim>\<open>nil\<close>) together with the new state.

  Every statement the engine sends can be refused by the store. The store's answers are a
  parameter \<open>fault\<close> of the operations: \<open>fault n\<close> is the answer to the \<open>n\<close>-th statement
  sent, \<open>None\<close> when the store carries it out and \<open>Some msg\<close> when it reports the error
  \<open>msg\<close>. The readings of the clock are a parameter too: the \<open>n\<close>-th reading of
  \<^verbatim>\<open>time.Now()\<close> is \<open>clock n\<close>. Log output is not modelled, except the rows that
  \<^verbatim>\<open>Status\<close> prints.
\<close>

subsection \<open>Data\<close>

type_synonym time = nat

text \<open>\<^verbatim>\<open>type Migration struct\<close>: a row of the ledger table.\<close>

record Migration =
  ID :: nat
  Version :: string
  Description :: string
  ExecutedAt :: time

text \<open>
  Go errors. \<open>ErrorfW msg err\<close> is \<^verbatim>\<open>fmt.Errorf(msg + ": %w", err)\<close>, \<open>Errorf msg\<close> is
  \<^verbatim>\<open>fmt.Errorf(msg)\<close>, \<open>StoreError msg\<close> is an error reported by the store.
\<close>

datatype error =
    ErrRecordNotFound
  | StoreError string
  | Errorf string
  | ErrorfW string error

text \<open>
  The \<^verbatim>\<open>migrations\<close> table: its rows in insertion order and the last value of the
  surrogate key's sequence.
\<close>

record MigrationsTable =
  rows :: "Migration list"
  last_id :: nat

text \<open>
  What a \<^verbatim>\<open>*gorm.DB\<close> handle gives access to: the ledger table (\<open>None\<close>: no such table)
  and the application's data.
\<close>

record 's database =
  ledger :: "MigrationsTable option"
  store :: 's

text \<open>
  \<^verbatim>\<open>type MigrationStep struct\<close>. The closures \<^verbatim>\<open>Up\<close> and \<^verbatim>\<open>Down\<close> receive the transaction
  handle \<^verbatim>\<open>tx\<close> and return an error or \<^verbatim>\<open>nil\<close>: functions on the database, \<open>Inl\<close> being the
  returned error. (The fields are prefixed: the names \<^verbatim>\<open>Version\<close>, \<^verbatim>\<open>Description\<close> belong
  to the ledger row, \<^verbatim>\<open>Up\<close> and \<^verbatim>\<open>Down\<close> to the Migrator's methods.)
\<close>

record 's MigrationStep =
  StepVersion :: string
  StepDescription :: string
  StepUp :: "'s database \<Rightarrow> error + 's database"
  StepDown :: "'s database \<Rightarrow> error + 's database"

text \<open>\<^verbatim>\<open>type Migrator struct\<close>; its \<^verbatim>\<open>db\<close> field is the state passed to every method.\<close>

record 's Migrator =
  migrations :: "'s MigrationStep list"

text \<open>An invocation of a step closure, recorded when it happens (never rolled back).\<close>

datatype call = CallUp string | CallDown string

text \<open>
  The world a command runs in: the database, how many times the Migrator has read
  \<^verbatim>\<open>time.Now()\<close>, how many statements it has sent to the store, and the closures invoked
  so far.
\<close>

record 's world =
  db :: "'s database"
  clock_reads :: nat
  statements :: nat
  calls :: "call list"

subsection \<open>The statements the engine sends\<close>

definition no_table :: error where
  "no_table = StoreError ''relation \"migrations\" does not exist''"

definition duplicate_version :: error where
  "duplicate_version = StoreError ''duplicate key value violates unique constraint''"

text \<open>Sending one statement: it is counted, and the store accepts or refuses it.\<close>

definition send :: "(nat \<Rightarrow> string option) \<Rightarrow> 's world \<Rightarrow> error option \<times> 's world" where
  "send fault w =
     (map_option StoreError (fault (statements w)), w\<lparr>statements := Suc (statements w)\<rparr>)"

text \<open>\<^verbatim>\<open>db.AutoMigrate(&Migration{})\<close>: create the table if it does not exist.\<close>

definition AutoMigrate :: "(nat \<Rightarrow> string option) \<Rightarrow> 's world \<Rightarrow> error option \<times> 's world" where
  "AutoMigrate fault w =
     (case send fault w of
        (Some err, w1) \<Rightarrow> (Some err, w1)
      | (None, w1) \<Rightarrow>
          (case ledger (db w1) of
             None \<Rightarrow> (None, w1\<lparr>db := (db w1)\<lparr>ledger := Some \<lparr>rows = [], last_id = 0\<rparr>\<rparr>\<rparr>)
           | Some t \<Rightarrow> (None, w1)))"

text \<open>\<^verbatim>\<open>db.Migrator().DropTable(&Migration{})\<close>: \<^verbatim>\<open>DROP TABLE IF EXISTS\<close>.\<close>

definition DropTable :: "(nat \<Rightarrow> string option) \<Rightarrow> 's world \<Rightarrow> error option \<times> 's world" where
  "DropTable fault w =
     (case send fault w of
        (Some err, w1) \<Rightarrow> (Some err, w1)
      | (None, w1) \<Rightarrow> (None, w1\<lparr>db := (db w1)\<lparr>ledger := None\<rparr>\<rparr>))"

text \<open>\<^verbatim>\<open>db.Find(&executedMigrations)\<close>.\<close>

definition Find :: "(nat \<Rightarrow> string option) \<Rightarrow> 's world \<Rightarrow> (error + Migration list) \<times> 's world" where
  "Find fault w =
     (case send fault w of
        (Some err, w1) \<Rightarrow> (Inl err, w1)
      | (None, w1) \<Rightarrow>
          (case ledger (db w1) of
             None \<Rightarrow> (Inl no_table, w1)
           | Some t \<Rightarrow> (Inr (rows t), w1)))"

text \<open>\<^verbatim>\<open>db.Order("executed_at asc").Find(&executedMigrations)\<close>.\<close>

definition Find_executed_at_asc ::
  "(nat \<Rightarrow> string option) \<Rightarrow> 's world \<Rightarrow> (error + Migration list) \<times> 's world" where
  "Find_executed_at_asc fault w =
     (case send fault w of
        (Some err, w1) \<Rightarrow> (Inl err, w1)
      | (None, w1) \<Rightarrow>
          (case ledger (db w1) of
             None \<Rightarrow> (Inl no_table, w1)
           | Some t \<Rightarrow> (Inr (sort_key ExecutedAt (rows t)), w1)))"

text \<open>
  \<^verbatim>\<open>db.Order("executed_at desc").First(&lastMigration)\<close>: the row with the greatest
  \<^verbatim>\<open>executed_at\<close>; \<^verbatim>\<open>First\<close> orders by the primary key after that, so the smallest
  \<^verbatim>\<open>id\<close> wins among equal timestamps. No row at all is \<^verbatim>\<open>gorm.ErrRecordNotFound\<close>.
\<close>

fun latest :: "Migration \<Rightarrow> Migration list \<Rightarrow> Migration" where
  "latest best [] = best"
| "latest best (r # rs) =
     latest (if ExecutedAt best < ExecutedAt r
                \<or> (ExecutedAt r = ExecutedAt best \<and> ID r < ID best)
             then r else best) rs"

definition First_executed_at_desc ::
  "(nat \<Rightarrow> string option) \<Rightarrow> 's world \<Rightarrow> (error + Migration) \<times> 's world" where
  "First_executed_at_desc fault w =
     (case send fault w of
        (Some err, w1) \<Rightarrow> (Inl err, w1)
      | (None, w1) \<Rightarrow>
          (case ledger (db w1) of
             None \<Rightarrow> (Inl no_table, w1)
           | Some t \<Rightarrow>
               (case rows t of
                  [] \<Rightarrow> (Inl ErrRecordNotFound, w1)
                | r # rs \<Rightarrow> (Inr (latest r rs), w1))))"

text \<open>
  \<^verbatim>\<open>tx.Create(&newMigration)\<close>: the row gets the next key; \<^verbatim>\<open>Version\<close> is
  \<^verbatim>\<open>gorm:"unique;not null"\<close>, so a version already in the table is refused.
\<close>

definition Create ::
  "(nat \<Rightarrow> string option) \<Rightarrow> Migration \<Rightarrow> 's world \<Rightarrow> error option \<times> 's world" where
  "Create fault newMigration w =
     (case send fault w of
        (Some err, w1) \<Rightarrow> (Some err, w1)
      | (None, w1) \<Rightarrow>
          (case ledger (db w1) of
             None \<Rightarrow> (Some no_table, w1)
           | Some t \<Rightarrow>
               if Version newMigration \<in> set (map Version (rows t))
               then (Some duplicate_version, w1)
               else (None, w1\<lparr>db := (db w1)\<lparr>ledger :=
                        Some \<lparr>rows = rows t @ [newMigration\<lparr>ID := Suc (last_id t)\<rparr>],
                              last_id = Suc (last_id t)\<rparr>\<rparr>\<rparr>)))"

text \<open>\<^verbatim>\<open>tx.Delete(&lastMigration)\<close>: delete by primary key.\<close>

definition Delete ::
  "(nat \<Rightarrow> string option) \<Rightarrow> Migration \<Rightarrow> 's world \<Rightarrow> error option \<times> 's world" where
  "Delete fault lastMigration w =
     (case send fault w of
        (Some err, w1) \<Rightarrow> (Some err, w1)
      | (None, w1) \<Rightarrow>
          (case ledger (db w1) of
             None \<Rightarrow> (Some no_table, w1)
           | Some t \<Rightarrow>
               (None, w1\<lparr>db := (db w1)\<lparr>ledger :=
                        Some (t\<lparr>rows := filter (\<lambda>r. ID r \<noteq> ID lastMigration) (rows t)\<rparr>)\<rparr>\<rparr>)))"

text \<open>
  \<^verbatim>\<open>db.Transaction(func(tx *gorm.DB) error {...})\<close>: begin; run the body; commit when it
  returns \<^verbatim>\<open>nil\<close>, otherwise roll the database back and return the body's error. A
  refused begin or commit is returned as the error, and nothing of the body persists.
\<close>

definition Transaction ::
  "(nat \<Rightarrow> string option) \<Rightarrow> ('s world \<Rightarrow> error option \<times> 's world) \<Rightarrow> 's world
     \<Rightarrow> error option \<times> 's world" where
  "Transaction fault body w =
     (case send fault w of
        (Some err, tx) \<Rightarrow> (Some err, tx)
      | (None, tx) \<Rightarrow>
          (case body tx of
             (Some err, tx') \<Rightarrow> (Some err, tx'\<lparr>db := db w\<rparr>)
           | (None, tx') \<Rightarrow>
               (case send fault tx' of
                  (Some err, w') \<Rightarrow> (Some err, w'\<lparr>db := db w\<rparr>)
                | (None, w') \<Rightarrow> (None, w'))))"

text \<open>\<^verbatim>\<open>time.Now()\<close>.\<close>

definition time_Now :: "(nat \<Rightarrow> time) \<Rightarrow> 's world \<Rightarrow> time \<times> 's world" where
  "time_Now clock w = (clock (clock_reads w), w\<lparr>clock_reads := Suc (clock_reads w)\<rparr>)"

text \<open>\<^verbatim>\<open>migration.Up(tx)\<close> and \<^verbatim>\<open>migrationStep.Down(tx)\<close>.\<close>

definition call_Up :: "'s MigrationStep \<Rightarrow> 's world \<Rightarrow> error option \<times> 's world" where
  "call_Up migration tx =
     (let tx1 = tx\<lparr>calls := calls tx @ [CallUp (StepVersion migration)]\<rparr>
      in case StepUp migration (db tx1) of
           Inl err \<Rightarrow> (Some err, tx1)
         | Inr d \<Rightarrow> (None, tx1\<lparr>db := d\<rparr>))"

definition call_Down :: "'s MigrationStep \<Rightarrow> 's world \<Rightarrow> error option \<times> 's world" where
  "call_Down migrationStep tx =
     (let tx1 = tx\<lparr>calls := calls tx @ [CallDown (StepVersion migrationStep)]\<rparr>
      in case StepDown migrationStep (db tx1) of
           Inl err \<Rightarrow> (Some err, tx1)
         | Inr d \<Rightarrow> (None, tx1\<lparr>db := d\<rparr>))"

subsection \<open>The Migrator\<close>

definition NewMigrator :: "'s Migrator" where
  "NewMigrator = \<lparr>migrations = []\<rparr>"

definition Register :: "'s Migrator \<Rightarrow> 's MigrationStep \<Rightarrow> 's Migrator" where
  "Register m step = m\<lparr>migrations := migrations m @ [step]\<rparr>"

definition Initialize :: "(nat \<Rightarrow> string option) \<Rightarrow> 's world \<Rightarrow> error option \<times> 's world" where
  "Initialize fault w = AutoMigrate fault w"

text \<open>
  \<^verbatim>\<open>executedMap := make(map[string]bool)\<close>, filled from the rows read; a missing key reads
  \<^verbatim>\<open>false\<close>.
\<close>

definition executedMap_of :: "Migration list \<Rightarrow> string \<Rightarrow> bool" where
  "executedMap_of executedMigrations =
     foldl (\<lambda>executedMap migration. executedMap(Version migration := True))
       (\<lambda>_. False) executedMigrations"

text \<open>The body of the transaction that \<^verbatim>\<open>Up\<close> runs for one pending step.\<close>

definition Up_tx ::
  "(nat \<Rightarrow> time) \<Rightarrow> (nat \<Rightarrow> string option) \<Rightarrow> 's MigrationStep \<Rightarrow> 's world
     \<Rightarrow> error option \<times> 's world" where
  "Up_tx clock fault migration tx =
     (case call_Up migration tx of
        (Some err, tx1) \<Rightarrow>
          (Some (ErrorfW (''failed to execute migration '' @ StepVersion migration) err), tx1)
      | (None, tx1) \<Rightarrow>
          (let (now, tx2) = time_Now clock tx1;
               newMigration = \<lparr>ID = 0, Version = StepVersion migration,
                                Description = StepDescription migration, ExecutedAt = now\<rparr>
           in case Create fault newMigration tx2 of
                (Some err, tx3) \<Rightarrow>
                  (Some (ErrorfW (''failed to record migration '' @ StepVersion migration) err), tx3)
              | (None, tx3) \<Rightarrow> (None, tx3)))"

text \<open>
  The loop \<^verbatim>\<open>for _, migration := range m.migrations\<close> of \<^verbatim>\<open>Up\<close>
  (\<^verbatim>\<open>pendingCount\<close> only feeds the log).
\<close>

fun Up_loop ::
  "(nat \<Rightarrow> time) \<Rightarrow> (nat \<Rightarrow> string option) \<Rightarrow> (string \<Rightarrow> bool) \<Rightarrow> 's MigrationStep list
     \<Rightarrow> 's world \<Rightarrow> error option \<times> 's world"
where
  "Up_loop clock fault executedMap [] w = (None, w)"
| "Up_loop clock fault executedMap (migration # rest) w =
     (if executedMap (StepVersion migration) then Up_loop clock fault executedMap rest w
      else case Transaction fault (Up_tx clock fault migration) w of
             (Some err, w') \<Rightarrow>
               (Some (ErrorfW (''failed to run migration '' @ StepVersion migration) err), w')
           | (None, w') \<Rightarrow> Up_loop clock fault executedMap rest w')"

definition Up ::
  "(nat \<Rightarrow> time) \<Rightarrow> (nat \<Rightarrow> string option) \<Rightarrow> 's Migrator \<Rightarrow> 's world
     \<Rightarrow> error option \<times> 's world" where
  "Up clock fault m w =
     (case Initialize fault w of
        (Some err, w1) \<Rightarrow> (Some (ErrorfW ''failed to initialize migrations table'' err), w1)
      | (None, w1) \<Rightarrow>
          (case Find fault w1 of
             (Inl err, w2) \<Rightarrow> (Some (ErrorfW ''failed to fetch executed migrations'' err), w2)
           | (Inr executedMigrations, w2) \<Rightarrow>
               Up_loop clock fault (executedMap_of executedMigrations) (migrations m) w2))"

text \<open>The body of the transaction that \<^verbatim>\<open>Down\<close> runs.\<close>

definition Down_tx ::
  "(nat \<Rightarrow> string option) \<Rightarrow> 's MigrationStep \<Rightarrow> Migration \<Rightarrow> 's world
     \<Rightarrow> error option \<times> 's world" where
  "Down_tx fault migrationStep lastMigration tx =
     (case call_Down migrationStep tx of
        (Some err, tx1) \<Rightarrow>
          (Some (ErrorfW (''failed to execute rollback for migration '' @ StepVersion migrationStep) err),
           tx1)
      | (None, tx1) \<Rightarrow>
          (case Delete fault lastMigration tx1 of
             (Some err, tx2) \<Rightarrow>
               (Some (ErrorfW (''failed to remove migration record '' @ Version lastMigration) err), tx2)
           | (None, tx2) \<Rightarrow> (None, tx2)))"

definition Down ::
  "(nat \<Rightarrow> string option) \<Rightarrow> 's Migrator \<Rightarrow> 's world \<Rightarrow> error option \<times> 's world" where
  "Down fault m w =
     (case First_executed_at_desc fault w of
        (Inl err, w1) \<Rightarrow>
          if err = ErrRecordNotFound then (None, w1)
          else (Some (ErrorfW ''failed to fetch last migration'' err), w1)
      | (Inr lastMigration, w1) \<Rightarrow>
          (case find (\<lambda>migration. StepVersion migration = Version lastMigration) (migrations m) of
             None \<Rightarrow>
               (Some (Errorf (''migration step not found for version: '' @ Version lastMigration)), w1)
           | Some migrationStep \<Rightarrow>
               (case Transaction fault (Down_tx fault migrationStep lastMigration) w1 of
                  (Some err, w') \<Rightarrow>
                    (Some (ErrorfW (''failed to roll back migration '' @ StepVersion migrationStep) err),
                     w')
                | (None, w') \<Rightarrow> (None, w'))))"

text \<open>\<^verbatim>\<open>truncate(s, max)\<close>; \<^verbatim>\<open>len\<close> and the slice count bytes, as \<open>length\<close> and \<open>take\<close> do.\<close>

definition truncate_str :: "string \<Rightarrow> nat \<Rightarrow> string" where
  "truncate_str s maxlen = (if length s \<le> maxlen then s else take (maxlen - 3) s @ ''...'')"

text \<open>
  One block of the table that \<^verbatim>\<open>Status\<close> prints: the arguments of its \<^verbatim>\<open>log.Printf\<close>
  calls. \<open>shown_executedAt\<close> is the formatted timestamp, empty for a pending step (the
  second line is printed only when it is not empty).
\<close>

record StatusRow =
  shown_version :: string
  shown_description :: string
  shown_status :: string
  shown_executedAt :: string

text \<open>\<^verbatim>\<open>executed := make(map[string]Migration)\<close>, filled from the rows read.\<close>

definition executed_of :: "Migration list \<Rightarrow> string \<Rightarrow> Migration option" where
  "executed_of executedMigrations =
     foldl (\<lambda>executed migration. executed(Version migration \<mapsto> migration))
       Map.empty executedMigrations"

definition Status_row ::
  "(time \<Rightarrow> string) \<Rightarrow> (string \<Rightarrow> Migration option) \<Rightarrow> 's MigrationStep \<Rightarrow> StatusRow" where
  "Status_row format executed migration =
     (case executed (StepVersion migration) of
        Some exec \<Rightarrow>
          \<lparr>shown_version = StepVersion migration,
           shown_description = truncate_str (StepDescription migration) 24,
           shown_status = ''Executed'',
           shown_executedAt = format (ExecutedAt exec)\<rparr>
      | None \<Rightarrow>
          \<lparr>shown_version = StepVersion migration,
           shown_description = truncate_str (StepDescription migration) 24,
           shown_status = ''Pending'',
           shown_executedAt = []\<rparr>)"

text \<open>
  \<^verbatim>\<open>Status\<close>. \<open>format\<close> is \<^verbatim>\<open>ExecutedAt.Format("2006-01-02 15:04:05")\<close>, a parameter. The
  result carries the printed rows beside the error; the second component is the
  Migrator and the state after the call.
\<close>

definition Status ::
  "(nat \<Rightarrow> string option) \<Rightarrow> (time \<Rightarrow> string) \<Rightarrow> 's Migrator \<Rightarrow> 's world
     \<Rightarrow> (error option \<times> StatusRow list) \<times> 's Migrator \<times> 's world" where
  "Status fault format m w =
     (case Find_executed_at_asc fault w of
        (Inl err, w1) \<Rightarrow> ((Some (ErrorfW ''failed to fetch executed migrations'' err), []), m, w1)
      | (Inr executedMigrations, w1) \<Rightarrow>
          ((None, map (Status_row format (executed_of executedMigrations)) (migrations m)), m, w1))"

definition Reset ::
  "(nat \<Rightarrow> time) \<Rightarrow> (nat \<Rightarrow> string option) \<Rightarrow> 's Migrator \<Rightarrow> 's world
     \<Rightarrow> error option \<times> 's world" where
  "Reset clock fault m w =
     (case DropTable fault w of
        (Some err, w1) \<Rightarrow> (Some (ErrorfW ''failed to drop migrations table'' err), w1)
      | (None, w1) \<Rightarrow>
          (case Up clock fault m w1 of
             (Some err, w2) \<Rightarrow> (Some (ErrorfW ''failed to re-run migrations'' err), w2)
           | (None, w2) \<Rightarrow> (None, w2)))"

subsection \<open>The command line: \<^verbatim>\<open>cmd/migrate/main.go\<close>\<close>

text \<open>
  \<^verbatim>\<open>strings.ToLower\<close> on the bytes of the string: the letters \<^verbatim>\<open>A\<close> to \<^verbatim>\<open>Z\<close> go to
  \<^verbatim>\<open>a\<close> to \<^verbatim>\<open>z\<close>, every other byte stays.
\<close>

definition toLower_byte :: "char \<Rightarrow> char" where
  "toLower_byte c =
     (let n = (of_char c :: nat) in if 65 \<le> n \<and> n \<le> 90 then char_of (n + 32) else c)"

definition ToLower :: "string \<Rightarrow> string" where
  "ToLower s = map toLower_byte s"

text \<open>The flags of the command.\<close>

record flags =
  upCmd :: bool
  downCmd :: bool
  statusCmd :: bool
  resetCmd :: bool
  createCmd :: string

text \<open>
  \<^verbatim>\<open>main\<close> after the flags are parsed: the exit code of the process and the state it
  leaves. \<open>connect\<close> is the error of \<^verbatim>\<open>database.ConnectDB\<close>, \<open>migrator\<close> the result of
  \<^verbatim>\<open>RegisterMigrations\<close>, \<open>response\<close> what \<^verbatim>\<open>fmt.Scanln(&response)\<close> stored.
  \<^verbatim>\<open>log.Fatalf\<close> exits with code 1, \<^verbatim>\<open>os.Exit(n)\<close> with \<open>n\<close>, and returning from \<^verbatim>\<open>main\<close>
  with 0.
\<close>

definition main ::
  "flags \<Rightarrow> error option \<Rightarrow> string \<Rightarrow> (nat \<Rightarrow> time) \<Rightarrow> (nat \<Rightarrow> string option) \<Rightarrow> (time \<Rightarrow> string)
     \<Rightarrow> 's Migrator \<Rightarrow> 's world \<Rightarrow> nat \<times> 's world" where
  "main fl connect response clock fault format migrator w =
     (if connect \<noteq> None then (1, w)
      else if upCmd fl then
        (case Up clock fault migrator w of (Some err, w') \<Rightarrow> (1, w') | (None, w') \<Rightarrow> (0, w'))
      else if downCmd fl then
        (case Down fault migrator w of (Some err, w') \<Rightarrow> (1, w') | (None, w') \<Rightarrow> (0, w'))
      else if statusCmd fl then
        (case Status fault format migrator w of
           ((Some err, printed), m', w') \<Rightarrow> (1, w')
         | ((None, printed), m', w') \<Rightarrow> (0, w'))
      else if resetCmd fl then
        (if ToLower response \<noteq> ''y'' then (0, w)
         else case Reset clock fault migrator w of
                (Some err, w') \<Rightarrow> (1, w')
              | (None, w') \<Rightarrow> (0, w'))
      else if createCmd fl \<noteq> [] then (0, w)
      else (1, w))"

subsection \<open>The step \<^verbatim>\<open>003_seed_admin_user\<close>\<close>

text \<open>\<^verbatim>\<open>type User struct\<close> of \<^verbatim>\<open>internal/models/user.go\<close>; \<open>DeletedAt\<close> is the soft-delete mark.\<close>

record User =
  UserID :: nat
  Email :: string
  Password :: string
  FirstName :: string
  LastName :: string
  Role :: string
  IsActive :: bool
  CreatedAt :: time
  UpdatedAt :: time
  DeletedAt :: "time option"

definition RoleAdmin :: string where
  "RoleAdmin = ''admin''"

definition RoleEditor :: string where
  "RoleEditor = ''editor''"

definition RoleUser :: string where
  "RoleUser = ''user''"

text \<open>The \<^verbatim>\<open>users\<close> table; the application's data are this table, if it exists.\<close>

record UsersTable =
  user_rows :: "User list"
  user_last_id :: nat

type_synonym users_db = "UsersTable option"

definition no_users_table :: error where
  "no_users_table = StoreError ''relation \"users\" does not exist''"

definition duplicate_email :: error where
  "duplicate_email = StoreError ''duplicate key value violates unique constraint on email''"

text \<open>
  \<^verbatim>\<open>tx.Model(&models.User{}).Where("email = ?", x).Count(&count)\<close>: soft-deleted rows are
  not counted. \<open>answer\<close> is the store's answer to the statement.
\<close>

definition Count_where_email :: "string option \<Rightarrow> string \<Rightarrow> users_db \<Rightarrow> error + int" where
  "Count_where_email answer x users =
     (case answer of
        Some msg \<Rightarrow> Inl (StoreError msg)
      | None \<Rightarrow>
          (case users of
             None \<Rightarrow> Inl no_users_table
           | Some t \<Rightarrow>
               Inr (int (length (filter (\<lambda>u. Email u = x \<and> DeletedAt u = None) (user_rows t))))))"

text \<open>
  The hook \<^verbatim>\<open>BeforeCreate\<close>; \<open>bcrypt\<close> is \<^verbatim>\<open>bcrypt.GenerateFromPassword\<close>, a parameter.
\<close>

definition BeforeCreate :: "(string \<Rightarrow> error + string) \<Rightarrow> User \<Rightarrow> error + User" where
  "BeforeCreate bcrypt u =
     (case (if Password u \<noteq> []
            then (case bcrypt (Password u) of
                    Inl err \<Rightarrow> Inl err
                  | Inr hashedPassword \<Rightarrow> Inr (u\<lparr>Password := hashedPassword\<rparr>))
            else Inr u) of
        Inl err \<Rightarrow> Inl err
      | Inr u1 \<Rightarrow> Inr (if Role u1 = [] then u1\<lparr>Role := RoleUser\<rparr> else u1))"

text \<open>
  \<^verbatim>\<open>tx.Create(&adminUser)\<close>: the hook, then the insert; \<^verbatim>\<open>Email\<close> is
  \<^verbatim>\<open>gorm:"unique;not null;index"\<close>, and the unique index also sees soft-deleted rows.
\<close>

definition Create_User ::
  "string option \<Rightarrow> (string \<Rightarrow> error + string) \<Rightarrow> User \<Rightarrow> users_db \<Rightarrow> error + users_db" where
  "Create_User answer bcrypt u users =
     (case BeforeCreate bcrypt u of
        Inl err \<Rightarrow> Inl err
      | Inr u1 \<Rightarrow>
          (case answer of
             Some msg \<Rightarrow> Inl (StoreError msg)
           | None \<Rightarrow>
               (case users of
                  None \<Rightarrow> Inl no_users_table
                | Some t \<Rightarrow>
                    if Email u1 \<in> set (map Email (user_rows t)) then Inl duplicate_email
                    else Inr (Some \<lparr>user_rows = user_rows t @ [u1\<lparr>UserID := Suc (user_last_id t)\<rparr>],
                                    user_last_id = Suc (user_last_id t)\<rparr>))))"

text \<open>
  The closure \<^verbatim>\<open>Up\<close> of \<^verbatim>\<open>Migration003SeedAdminUser\<close>, on the \<^verbatim>\<open>users\<close> table.
  \<open>answers\<close> are the store's answers to its two statements, \<open>createdAt\<close> and \<open>updatedAt\<close>
  its two readings of \<^verbatim>\<open>time.Now()\<close>.
\<close>

definition Migration003SeedAdminUser_Up ::
  "(nat \<Rightarrow> string option) \<Rightarrow> (string \<Rightarrow> error + string) \<Rightarrow> time \<Rightarrow> time \<Rightarrow> users_db
     \<Rightarrow> error + users_db" where
  "Migration003SeedAdminUser_Up answers bcrypt createdAt updatedAt tx =
     (case Count_where_email (answers 0) RoleAdmin tx of
        Inl err \<Rightarrow> Inl err
      | Inr count \<Rightarrow>
          if count > 0 then Inr tx
          else
            (let adminUser = \<lparr>UserID = 0, Email = ''admin@company.com'', Password = ''Admin123#'',
                               FirstName = ''John'', LastName = ''Doe'', Role = RoleAdmin,
                               IsActive = True, CreatedAt = createdAt, UpdatedAt = updatedAt,
                               DeletedAt = None\<rparr>
             in Create_User (answers 1) bcrypt adminUser tx))"

text \<open>
  The closure \<^verbatim>\<open>Down\<close>: \<^verbatim>\<open>tx.Where("email = ?", "admin@company.com").Delete(&models.User{})\<close>,
  a soft delete at time \<open>deletedAt\<close> since the model has \<^verbatim>\<open>gorm.DeletedAt\<close>.
\<close>

definition Migration003SeedAdminUser_Down ::
  "(nat \<Rightarrow> string option) \<Rightarrow> time \<Rightarrow> users_db \<Rightarrow> error + users_db" where
  "Migration003SeedAdminUser_Down answers deletedAt tx =
     (case answers 0 of
        Some msg \<Rightarrow> Inl (StoreError msg)
      | None \<Rightarrow>
          (case tx of
             None \<Rightarrow> Inl no_users_table
           | Some t \<Rightarrow>
               Inr (Some (t\<lparr>user_rows :=
                      map (\<lambda>u. if Email u = ''admin@company.com'' \<and> DeletedAt u = None
                                then u\<lparr>DeletedAt := Some deletedAt\<rparr> else u) (user_rows t)\<rparr>))))"

text \<open>A closure that works on the application's data only, as a closure on the database.\<close>

definition on_store :: "('s \<Rightarrow> error + 's) \<Rightarrow> 's database \<Rightarrow> error + 's database" where
  "on_store f d = (case f (store d) of Inl err \<Rightarrow> Inl err | Inr s \<Rightarrow> Inr (d\<lparr>store := s\<rparr>))"

definition Migration003SeedAdminUser ::
  "(nat \<Rightarrow> string option) \<Rightarrow> (string \<Rightarrow> error + string) \<Rightarrow> time \<Rightarrow> time \<Rightarrow> time
     \<Rightarrow> users_db MigrationStep" where
  "Migration003SeedAdminUser answers bcrypt createdAt updatedAt deletedAt =
     \<lparr>StepVersion = ''003_seed_admin_user'',
      StepDescription = ''Seed initial admin user'',
      StepUp = on_store (Migration003SeedAdminUser_Up answers bcrypt createdAt updatedAt),
      StepDown = on_store (Migration003SeedAdminUser_Down answers deletedAt)\<rparr>"

subsection \<open>Notions used to state the properties\<close>

text \<open>The records in the ledger; a ledger whose table does not exist has none.\<close>

definition ledger_rows :: "'s world \<Rightarrow> Migration list" where
  "ledger_rows w = (case ledger (db w) of None \<Rightarrow> [] | Some t \<Rightarrow> rows t)"

definition ledger_last_id :: "'s world \<Rightarrow> nat" where
  "ledger_last_id w = (case ledger (db w) of None \<Rightarrow> 0 | Some t \<Rightarrow> last_id t)"

text \<open>The steps not marked in an \<^verbatim>\<open>executedMap\<close>, in registration order.\<close>

definition pending_in :: "(string \<Rightarrow> bool) \<Rightarrow> 's MigrationStep list \<Rightarrow> 's MigrationStep list" where
  "pending_in executedMap ss = filter (\<lambda>s. \<not> executedMap (StepVersion s)) ss"

text \<open>The pending steps of a Migrator: those whose version has no record in the ledger.\<close>

definition pending :: "'s Migrator \<Rightarrow> 's world \<Rightarrow> 's MigrationStep list" where
  "pending m w =
     filter (\<lambda>s. StepVersion s \<notin> Version ` set (ledger_rows w)) (migrations m)"

text \<open>
  The records of a list of steps applied one after the other, the first with key
  \<open>Suc i\<close> at the \<open>n\<close>-th reading of the clock.
\<close>

fun new_rows :: "(nat \<Rightarrow> time) \<Rightarrow> nat \<Rightarrow> nat \<Rightarrow> 's MigrationStep list \<Rightarrow> Migration list" where
  "new_rows clock n i [] = []"
| "new_rows clock n i (p # ps) =
     \<lparr>ID = Suc i, Version = StepVersion p, Description = StepDescription p,
      ExecutedAt = clock n\<rparr> # new_rows clock (Suc n) (Suc i) ps"

text \<open>The table \<^verbatim>\<open>Initialize\<close> leaves: the one that exists, or a new empty one.\<close>

definition initial_table :: "'s world \<Rightarrow> MigrationsTable" where
  "initial_table w =
     (case ledger (db w) of None \<Rightarrow> \<lparr>rows = [], last_id = 0\<rparr> | Some t \<Rightarrow> t)"

text \<open>
  The caller contract ``no other component may write to the ledger'': a closure that
  returns \<^verbatim>\<open>nil\<close> has left the ledger table as it found it.
\<close>

definition keeps_ledger :: "('s database \<Rightarrow> error + 's database) \<Rightarrow> bool" where
  "keeps_ledger f = (\<forall>d d'. f d = Inr d' \<longrightarrow> ledger d' = ledger d)"

definition forward_keeps_ledger :: "'s Migrator \<Rightarrow> bool" where
  "forward_keeps_ledger m = (\<forall>s \<in> set (migrations m). keeps_ledger (StepUp s))"

definition backward_keeps_ledger :: "'s Migrator \<Rightarrow> bool" where
  "backward_keeps_ledger m = (\<forall>s \<in> set (migrations m). keeps_ledger (StepDown s))"

text \<open>The invariant of the data model: every version in the ledger is a registered one.\<close>

definition ledger_within_registry :: "'s Migrator \<Rightarrow> 's world \<Rightarrow> bool" where
  "ledger_within_registry m w =
     (set (map Version (ledger_rows w)) \<subseteq> set (map StepVersion (migrations m)))"

text \<open>What \<^verbatim>\<open>Status\<close> prints for one step, given the rows of the ledger.\<close>

definition reports :: "(time \<Rightarrow> string) \<Rightarrow> Migration list \<Rightarrow> 's MigrationStep \<Rightarrow> StatusRow \<Rightarrow> bool" where
  "reports format ledger_now s row =
     (shown_version row = StepVersion s
      \<and> shown_description row = truncate_str (StepDescription s) 24
      \<and> (if StepVersion s \<in> set (map Version ledger_now)
         then shown_status row = ''Executed''
              \<and> shown_executedAt row \<in> set (map (\<lambda>r. format (ExecutedAt r))
                                         (filter (\<lambda>r. Version r = StepVersion s) ledger_now))
         else shown_status row = ''Pending'' \<and> shown_executedAt row = []))"

text \<open>
  The state in which the loop of \<^verbatim>\<open>Up\<close> starts: \<^verbatim>\<open>Initialize\<close> and the read of the ledger
  were the two statements sent.
\<close>

definition started :: "'s world \<Rightarrow> 's world" where
  "started w =
     w\<lparr>db := (db w)\<lparr>ledger := Some (initial_table w)\<rparr>, statements := Suc (Suc (statements w))\<rparr>"

subsection \<open>Concrete steps and states\<close>

text \<open>
  Steps over application data abstracted to a counter of the changes applied: a forward
  action adds one, a backward action takes one away, and neither touches the ledger. The
  versions and descriptions are those of \<^verbatim>\<open>registry.go\<close>.
\<close>

definition counting_step :: "string \<Rightarrow> string \<Rightarrow> nat MigrationStep" where
  "counting_step v d =
     \<lparr>StepVersion = v, StepDescription = d,
      StepUp = (\<lambda>tx. Inr (tx\<lparr>store := Suc (store tx)\<rparr>)),
      StepDown = (\<lambda>tx. Inr (tx\<lparr>store := store tx - 1\<rparr>))\<rparr>"

text \<open>A step whose forward action fails.\<close>

definition failing_step :: "string \<Rightarrow> string \<Rightarrow> nat MigrationStep" where
  "failing_step v d =
     \<lparr>StepVersion = v, StepDescription = d,
      StepUp = (\<lambda>tx. Inl (StoreError ''syntax error'')),
      StepDown = (\<lambda>tx. Inr tx)\<rparr>"

text \<open>A step whose forward action deletes every row of the \<^verbatim>\<open>migrations\<close> table.\<close>

definition wiping_step :: "string \<Rightarrow> string \<Rightarrow> nat MigrationStep" where
  "wiping_step v d =
     \<lparr>StepVersion = v, StepDescription = d,
      StepUp = (\<lambda>tx. Inr (tx\<lparr>ledger := map_option (\<lambda>t. t\<lparr>rows := []\<rparr>) (ledger tx)\<rparr>)),
      StepDown = (\<lambda>tx. Inr tx)\<rparr>"

definition step_001 :: "nat MigrationStep" where
  "step_001 = counting_step ''001_create_users_table'' ''Create users table''"

definition step_002 :: "nat MigrationStep" where
  "step_002 = counting_step ''002_add_user_indexes'' ''Add indexes to users table''"

definition step_003 :: "nat MigrationStep" where
  "step_003 = counting_step ''003_seed_admin_user'' ''Seed initial admin user''"

text \<open>The Migrator that \<^verbatim>\<open>RegisterMigrations\<close> builds, with these steps.\<close>

definition registry :: "nat Migrator" where
  "registry = Register (Register (Register NewMigrator step_001) step_002) step_003"

text \<open>
  A database without the ledger table, a store that carries out every statement, a store
  that refuses every statement, and a clock that ticks at each reading.
\<close>

definition fresh_world :: "nat world" where
  "fresh_world =
     \<lparr>db = \<lparr>ledger = None, store = 0\<rparr>, clock_reads = 0, statements = 0, calls = []\<rparr>"

definition reliable :: "nat \<Rightarrow> string option" where
  "reliable n = None"

definition unreachable :: "nat \<Rightarrow> string option" where
  "unreachable n = Some ''connection refused''"

definition ticking :: "nat \<Rightarrow> time" where
  "ticking n = 100 + n"

text \<open>A wall clock that is set back between two readings.\<close>

definition set_back :: "nat \<Rightarrow> time" where
  "set_back n = 100 - n"

text \<open>The three records that \<^verbatim>\<open>up\<close> writes on the fresh database with the ticking clock.\<close>

definition three_rows :: "Migration list" where
  "three_rows =
     [\<lparr>ID = 1, Version = ''001_create_users_table'', Description = ''Create users table'',
       ExecutedAt = 100\<rparr>,
      \<lparr>ID = 2, Version = ''002_add_user_indexes'', Description = ''Add indexes to users table'',
       ExecutedAt = 101\<rparr>,
      \<lparr>ID = 3, Version = ''003_seed_admin_user'', Description = ''Seed initial admin user'',
       ExecutedAt = 102\<rparr>]"

text \<open>The state after \<^verbatim>\<open>up\<close> on the fresh database.\<close>

definition migrated_world :: "nat world" where
  "migrated_world =
     \<lparr>db = \<lparr>ledger = Some \<lparr>rows = three_rows, last_id = 3\<rparr>, store = 3\<rparr>,
      clock_reads = 3, statements = 11,
      calls = [CallUp ''001_create_users_table'', CallUp ''002_add_user_indexes'',
               CallUp ''003_seed_admin_user'']\<rparr>"

text \<open>Two steps registered under one version, the second with a failing forward action.\<close>

definition same_version_twice :: "nat Migrator" where
  "same_version_twice =
     \<lparr>migrations = [step_001, failing_step ''001_create_users_table'' ''Create users table again'']\<rparr>"

text \<open>Two steps, the second with a failing forward action.\<close>

definition second_fails :: "nat Migrator" where
  "second_fails =
     \<lparr>migrations = [step_001, failing_step ''002_add_user_indexes'' ''Add indexes to users table'']\<rparr>"

text \<open>A second step that wipes the ledger.\<close>

definition wiping_registry :: "nat Migrator" where
  "wiping_registry =
     \<lparr>migrations = [step_001, wiping_step ''002_add_user_indexes'' ''Add indexes to users table'']\<rparr>"

section \<open>Properties\<close>


subsection \<open>One transaction\<close>

lemma Transaction_rollback:
  "Transaction fault body w = (Some err, w') \<Longrightarrow> db w' = db w"
  by (auto simp: Transaction_def send_def split: prod.splits option.splits)

lemma Transaction_commit:
  "Transaction fault body w = (None, w') \<Longrightarrow>
   fault (statements w) = None
   \<and> (\<exists>tx'. body (w\<lparr>statements := Suc (statements w)\<rparr>) = (None, tx')
            \<and> fault (statements tx') = None
            \<and> w' = tx'\<lparr>statements := Suc (statements tx')\<rparr>)"
  by (auto simp: Transaction_def send_def split: prod.splits option.splits)

lemma Up_tx_None:
  "Up_tx clock fault s tx = (None, tx') \<Longrightarrow>
   \<exists>d. StepUp s (db tx) = Inr d
      \<and> fault (statements tx) = None
      \<and> (\<exists>t. ledger d = Some t
            \<and> StepVersion s \<notin> Version ` set (rows t)
            \<and> tx' = tx\<lparr>db := d\<lparr>ledger := Some \<lparr>rows = rows t @
                               [\<lparr>ID = Suc (last_id t), Version = StepVersion s,
                                 Description = StepDescription s,
                                 ExecutedAt = clock (clock_reads tx)\<rparr>],
                             last_id = Suc (last_id t)\<rparr>\<rparr>,
                         clock_reads := Suc (clock_reads tx),
                         statements := Suc (statements tx),
                         calls := calls tx @ [CallUp (StepVersion s)]\<rparr>)"
  by (auto simp: Up_tx_def call_Up_def time_Now_def Create_def send_def Let_def
      split: prod.splits option.splits sum.splits if_splits)

lemma tx_Up_success:
  assumes "Transaction fault (Up_tx clock fault s) w = (None, w')"
    and "keeps_ledger (StepUp s)"
    and "ledger (db w) = Some t"
  shows "StepVersion s \<notin> Version ` set (rows t)"
    and "ledger (db w') = Some \<lparr>rows = rows t @
                               [\<lparr>ID = Suc (last_id t), Version = StepVersion s,
                                 Description = StepDescription s,
                                 ExecutedAt = clock (clock_reads w)\<rparr>],
                             last_id = Suc (last_id t)\<rparr>"
    and "clock_reads w' = Suc (clock_reads w)"
    and "statements w' = statements w + 3"
    and "calls w' = calls w @ [CallUp (StepVersion s)]"
    and "\<exists>d. StepUp s (db w) = Inr d \<and> store (db w') = store d"
proof -
  from Transaction_commit [OF assms(1)] obtain tx' where
    b: "Up_tx clock fault s (w\<lparr>statements := Suc (statements w)\<rparr>) = (None, tx')"
    and w': "w' = tx'\<lparr>statements := Suc (statements tx')\<rparr>" by blast
  from Up_tx_None [OF b] obtain d t' where
    d: "StepUp s (db w) = Inr d" and t': "ledger d = Some t'"
    and fr: "StepVersion s \<notin> Version ` set (rows t')"
    and tx': "tx' = (w\<lparr>statements := Suc (statements w)\<rparr>)\<lparr>db := d\<lparr>ledger := Some \<lparr>rows = rows t' @
                               [\<lparr>ID = Suc (last_id t'), Version = StepVersion s,
                                 Description = StepDescription s,
                                 ExecutedAt = clock (clock_reads w)\<rparr>],
                             last_id = Suc (last_id t')\<rparr>\<rparr>,
                         clock_reads := Suc (clock_reads w),
                         statements := Suc (Suc (statements w)),
                         calls := calls w @ [CallUp (StepVersion s)]\<rparr>"
    by auto
  from assms(2) d have "ledger d = ledger (db w)" by (simp add: keeps_ledger_def)
  with t' assms(3) have tt: "t' = t" by simp
  from fr tt show "StepVersion s \<notin> Version ` set (rows t)" by simp
  from w' tx' tt show "ledger (db w') = Some \<lparr>rows = rows t @
                               [\<lparr>ID = Suc (last_id t), Version = StepVersion s,
                                 Description = StepDescription s,
                                 ExecutedAt = clock (clock_reads w)\<rparr>],
                             last_id = Suc (last_id t)\<rparr>" by simp
  from w' tx' show "clock_reads w' = Suc (clock_reads w)" by simp
  from w' tx' show "statements w' = statements w + 3" by simp
  from w' tx' show "calls w' = calls w @ [CallUp (StepVersion s)]" by simp
  from w' tx' d show "\<exists>d. StepUp s (db w) = Inr d \<and> store (db w') = store d" by simp
qed

lemma tx_Up_success_calls:
  assumes "Transaction fault (Up_tx clock fault s) w = (None, w')"
  shows "calls w' = calls w @ [CallUp (StepVersion s)]"
proof -
  from Transaction_commit [OF assms] obtain tx' where
    b: "Up_tx clock fault s (w\<lparr>statements := Suc (statements w)\<rparr>) = (None, tx')"
    and w': "w' = tx'\<lparr>statements := Suc (statements tx')\<rparr>" by blast
  from Up_tx_None [OF b] w' show ?thesis by auto
qed

lemma Up_tx_calls:
  "Up_tx clock fault s tx = (r, tx') \<Longrightarrow> calls tx' = calls tx @ [CallUp (StepVersion s)]"
  by (auto simp: Up_tx_def call_Up_def time_Now_def Create_def send_def Let_def
      split: prod.splits option.splits sum.splits if_splits)

lemma tx_Up_calls:
  assumes "Transaction fault (Up_tx clock fault s) w = (r, w')"
  shows "calls w' = (if fault (statements w) = None then calls w @ [CallUp (StepVersion s)] else calls w)"
proof (cases "fault (statements w)")
  case None
  obtain r1 tx' where b: "Up_tx clock fault s (w\<lparr>statements := Suc (statements w)\<rparr>) = (r1, tx')"
    by (cases "Up_tx clock fault s (w\<lparr>statements := Suc (statements w)\<rparr>)")
  from Up_tx_calls [OF b] have "calls tx' = calls w @ [CallUp (StepVersion s)]" by simp
  with assms None b show ?thesis
    by (auto simp: Transaction_def send_def split: prod.splits option.splits)
next
  case (Some msg)
  with assms show ?thesis by (auto simp: Transaction_def send_def)
qed

lemma Up_tx_execute_error:
  "Up_tx clock fault s tx = (Some (ErrorfW (''failed to execute migration '' @ v) e), tx') \<Longrightarrow>
   StepUp s (db tx) = Inl e \<and> clock_reads tx' = clock_reads tx \<and> statements tx' = statements tx"
  by (auto simp: Up_tx_def call_Up_def time_Now_def Create_def send_def Let_def
      split: prod.splits option.splits sum.splits if_splits)

lemma tx_Up_execute_error:
  assumes "Transaction fault (Up_tx clock fault s) w
             = (Some (ErrorfW (''failed to execute migration '' @ v) e), w')"
  shows "StepUp s (db w) = Inl e"
    and "clock_reads w' = clock_reads w"
    and "statements w' = Suc (statements w)"
    and "fault (statements w) = None"
proof -
  have f: "fault (statements w) = None"
    using assms by (auto simp: Transaction_def send_def split: prod.splits option.splits)
  obtain r1 tx' where b: "Up_tx clock fault s (w\<lparr>statements := Suc (statements w)\<rparr>) = (r1, tx')"
    by (cases "Up_tx clock fault s (w\<lparr>statements := Suc (statements w)\<rparr>)")
  have r1: "r1 = Some (ErrorfW (''failed to execute migration '' @ v) e)"
    and w': "w' = tx'\<lparr>db := db w\<rparr>"
    using assms f b by (auto simp: Transaction_def send_def split: prod.splits option.splits)
  from Up_tx_execute_error [OF b [unfolded r1]] w' f
  show "StepUp s (db w) = Inl e" "clock_reads w' = clock_reads w"
    "statements w' = Suc (statements w)" "fault (statements w) = None"
    by simp_all
qed



subsection \<open>The records written\<close>

lemma map_Version_new_rows: "map Version (new_rows clock n i ps) = map StepVersion ps"
  by (induction ps arbitrary: n i) auto

lemma map_Description_new_rows: "map Description (new_rows clock n i ps) = map StepDescription ps"
  by (induction ps arbitrary: n i) auto

lemma length_new_rows: "length (new_rows clock n i ps) = length ps"
  by (induction ps arbitrary: n i) auto

lemma new_rows_append:
  "new_rows clock n i (ps @ qs) = new_rows clock n i ps @ new_rows clock (n + length ps) (i + length ps) qs"
  by (induction ps arbitrary: n i) auto

lemma ExecutedAt_new_rows_ge:
  "\<forall>i j. i \<le> j \<longrightarrow> clock i \<le> clock j \<Longrightarrow>
   r \<in> set (new_rows clock n i ps) \<Longrightarrow> clock n \<le> ExecutedAt r"
proof (induction ps arbitrary: n i)
  case Nil
  then show ?case by simp
next
  case (Cons p ps)
  from Cons.prems(2) consider "ExecutedAt r = clock n" | "r \<in> set (new_rows clock (Suc n) (Suc i) ps)"
    by auto
  then show ?case
  proof cases
    case 1
    then show ?thesis by simp
  next
    case 2
    from Cons.IH [OF Cons.prems(1) 2] have "clock (Suc n) \<le> ExecutedAt r" .
    moreover from Cons.prems(1) have "clock n \<le> clock (Suc n)" by simp
    ultimately show ?thesis by simp
  qed
qed

lemma sorted_ExecutedAt_new_rows:
  "\<forall>i j. i \<le> j \<longrightarrow> clock i \<le> clock j \<Longrightarrow>
   sorted (map ExecutedAt (new_rows clock n i ps))"
proof (induction ps arbitrary: n i)
  case Nil
  then show ?case by simp
next
  case (Cons p ps)
  have "\<forall>r \<in> set (new_rows clock (Suc n) (Suc i) ps). clock n \<le> ExecutedAt r"
  proof
    fix r assume "r \<in> set (new_rows clock (Suc n) (Suc i) ps)"
    from ExecutedAt_new_rows_ge [OF Cons.prems this] have "clock (Suc n) \<le> ExecutedAt r" .
    moreover from Cons.prems have "clock n \<le> clock (Suc n)" by simp
    ultimately show "clock n \<le> ExecutedAt r" by simp
  qed
  with Cons.IH [OF Cons.prems] show ?case by simp
qed

lemma ID_new_rows_gt: "r \<in> set (new_rows clock n i ps) \<Longrightarrow> i < ID r"
proof (induction ps arbitrary: n i)
  case Nil
  then show ?case by simp
next
  case (Cons p ps)
  from Cons.prems consider "ID r = Suc i" | "r \<in> set (new_rows clock (Suc n) (Suc i) ps)"
    by auto
  then show ?case
  proof cases
    case 1
    then show ?thesis by simp
  next
    case 2
    from Cons.IH [OF 2] show ?thesis by simp
  qed
qed

lemma distinct_ID_new_rows: "distinct (map ID (new_rows clock n i ps))"
proof (induction ps arbitrary: n i)
  case Nil
  then show ?case by simp
next
  case (Cons p ps)
  have "Suc i \<notin> ID ` set (new_rows clock (Suc n) (Suc i) ps)"
    using ID_new_rows_gt [of _ clock "Suc n" "Suc i" ps] by force
  with Cons.IH show ?case by simp
qed

subsection \<open>The loop of \<^verbatim>\<open>Up\<close>\<close>

lemma Up_loop_filter:
  "Up_loop clock fault ex ss w = Up_loop clock fault ex (pending_in ex ss) w"
  by (induction ss arbitrary: w) (auto simp: pending_in_def split: prod.splits option.splits)

lemma pending_in_idem: "pending_in ex (pending_in ex ss) = pending_in ex ss"
  by (simp add: pending_in_def)

lemma Up_loop_append:
  "Up_loop clock fault ex (xs @ ys) w =
     (case Up_loop clock fault ex xs w of
        (Some err, w') \<Rightarrow> (Some err, w')
      | (None, w') \<Rightarrow> Up_loop clock fault ex ys w')"
  by (induction xs arbitrary: w) (auto split: prod.splits option.splits)

lemma Up_loop_nothing_pending:
  "pending_in ex ss = [] \<Longrightarrow> Up_loop clock fault ex ss w = (None, w)"
  using Up_loop_filter [of clock fault ex ss w] by simp

lemma Up_loop_error_shape:
  "Up_loop clock fault ex ss w = (Some err, w') \<Longrightarrow>
   \<exists>q \<in> set (pending_in ex ss). \<exists>inner.
      err = ErrorfW (''failed to run migration '' @ StepVersion q) inner"
proof (induction ss arbitrary: w)
  case Nil
  then show ?case by simp
next
  case (Cons s ss)
  show ?case
  proof (cases "ex (StepVersion s)")
    case True
    with Cons show ?thesis by (simp add: pending_in_def)
  next
    case False
    then have pa: "pending_in ex (s # ss) = s # pending_in ex ss" by (simp add: pending_in_def)
    obtain r1 w1 where tx: "Transaction fault (Up_tx clock fault s) w = (r1, w1)"
      by (cases "Transaction fault (Up_tx clock fault s) w")
    show ?thesis
    proof (cases r1)
      case None
      with Cons.prems False tx have "Up_loop clock fault ex ss w1 = (Some err, w')" by simp
      from Cons.IH [OF this] show ?thesis unfolding pa by auto
    next
      case (Some e1)
      with Cons.prems False tx
      have "err = ErrorfW (''failed to run migration '' @ StepVersion s) e1" by simp
      then show ?thesis unfolding pa by auto
    qed
  qed
qed

lemma Up_loop_success_calls:
  "Up_loop clock fault ex ss w = (None, w') \<Longrightarrow>
   calls w' = calls w @ map (\<lambda>p. CallUp (StepVersion p)) (pending_in ex ss)"
proof (induction ss arbitrary: w)
  case Nil
  then show ?case by (simp add: pending_in_def)
next
  case (Cons s ss)
  show ?case
  proof (cases "ex (StepVersion s)")
    case True
    with Cons show ?thesis by (simp add: pending_in_def)
  next
    case False
    then have pa: "pending_in ex (s # ss) = s # pending_in ex ss" by (simp add: pending_in_def)
    from Cons.prems False obtain w1 where
      tx: "Transaction fault (Up_tx clock fault s) w = (None, w1)"
      and loop: "Up_loop clock fault ex ss w1 = (None, w')"
      by (auto split: prod.splits option.splits)
    from Cons.IH [OF loop] tx_Up_success_calls [OF tx] show ?thesis
      unfolding pa by simp
  qed
qed

lemma Up_loop_success:
  assumes "Up_loop clock fault ex ss w = (None, w')"
    and "\<forall>s \<in> set ss. keeps_ledger (StepUp s)"
    and "ledger (db w) = Some t"
  shows "ledger (db w') =
           Some \<lparr>rows = rows t @ new_rows clock (clock_reads w) (last_id t) (pending_in ex ss),
                 last_id = last_id t + length (pending_in ex ss)\<rparr>
       \<and> clock_reads w' = clock_reads w + length (pending_in ex ss)
       \<and> statements w' = statements w + 3 * length (pending_in ex ss)
       \<and> distinct (map StepVersion (pending_in ex ss))
       \<and> (\<forall>p \<in> set (pending_in ex ss). StepVersion p \<notin> Version ` set (rows t))"
  using assms
proof (induction ss arbitrary: w t)
  case Nil
  then show ?case by (simp add: pending_in_def)
next
  case (Cons s ss)
  show ?case
  proof (cases "ex (StepVersion s)")
    case True
    with Cons show ?thesis by (simp add: pending_in_def)
  next
    case False
    then have pa: "pending_in ex (s # ss) = s # pending_in ex ss" by (simp add: pending_in_def)
    from Cons.prems(1) False obtain w1 where
      tx: "Transaction fault (Up_tx clock fault s) w = (None, w1)"
      and loop: "Up_loop clock fault ex ss w1 = (None, w')"
      by (auto split: prod.splits option.splits)
    have k: "keeps_ledger (StepUp s)" and ks: "\<forall>s \<in> set ss. keeps_ledger (StepUp s)"
      using Cons.prems(2) by simp_all
    let ?row = "\<lparr>ID = Suc (last_id t), Version = StepVersion s,
                 Description = StepDescription s, ExecutedAt = clock (clock_reads w)\<rparr>"
    let ?t1 = "\<lparr>rows = rows t @ [?row], last_id = Suc (last_id t)\<rparr>"
    note s1 = tx_Up_success [OF tx k Cons.prems(3)]
    from Cons.IH [OF loop ks s1(2)]
    have l: "ledger (db w') =
           Some \<lparr>rows = rows ?t1 @ new_rows clock (clock_reads w1) (last_id ?t1) (pending_in ex ss),
                 last_id = last_id ?t1 + length (pending_in ex ss)\<rparr>"
      and c: "clock_reads w' = clock_reads w1 + length (pending_in ex ss)"
      and st: "statements w' = statements w1 + 3 * length (pending_in ex ss)"
      and d: "distinct (map StepVersion (pending_in ex ss))"
      and f: "\<forall>p \<in> set (pending_in ex ss). StepVersion p \<notin> Version ` set (rows ?t1)"
      by blast+
    have ne: "StepVersion s \<notin> StepVersion ` set (pending_in ex ss)"
    proof
      assume "StepVersion s \<in> StepVersion ` set (pending_in ex ss)"
      then obtain p where p: "p \<in> set (pending_in ex ss)" "StepVersion p = StepVersion s" by auto
      with f have "StepVersion s \<notin> Version ` set (rows ?t1)" by metis
      then show False by simp
    qed
    have f0: "\<forall>p \<in> set (pending_in ex ss). StepVersion p \<notin> Version ` set (rows t)"
      using f by auto
    show ?thesis
      unfolding pa using l c st d ne f0 s1(1,3,4) by simp
  qed
qed

text \<open>Whatever the outcome, the loop only adds records of pending steps, in order.\<close>

lemma Up_loop_rows_any:
  assumes "Up_loop clock fault ex ss w = (r, w')"
    and "\<forall>s \<in> set ss. keeps_ledger (StepUp s)"
    and "ledger (db w) = Some t"
  shows "\<exists>n t'. ledger (db w') = Some t'
       \<and> rows t' = rows t @ new_rows clock (clock_reads w) (last_id t) (take n (pending_in ex ss))"
  using assms
proof (induction ss arbitrary: w t)
  case Nil
  then have "ledger (db w') = Some t \<and> rows t = rows t @ new_rows clock (clock_reads w) (last_id t) (take 0 (pending_in ex []))"
    by (simp add: pending_in_def)
  then show ?case by blast
next
  case (Cons s ss)
  show ?case
  proof (cases "ex (StepVersion s)")
    case True
    with Cons show ?thesis by (simp add: pending_in_def)
  next
    case False
    then have pa: "pending_in ex (s # ss) = s # pending_in ex ss" by (simp add: pending_in_def)
    obtain r1 w1 where tx: "Transaction fault (Up_tx clock fault s) w = (r1, w1)"
      by (cases "Transaction fault (Up_tx clock fault s) w")
    show ?thesis
    proof (cases r1)
      case (Some e1)
      with Cons.prems(1) False tx have "w' = w1" by simp
      with Transaction_rollback [OF tx [unfolded Some]] Cons.prems(3)
      have "ledger (db w') = Some t \<and> rows t = rows t @ new_rows clock (clock_reads w) (last_id t) (take 0 (pending_in ex (s # ss)))"
        by simp
      then show ?thesis by blast
    next
      case None
      with Cons.prems(1) False tx have loop: "Up_loop clock fault ex ss w1 = (r, w')" by simp
      have k: "keeps_ledger (StepUp s)" and ks: "\<forall>s \<in> set ss. keeps_ledger (StepUp s)"
        using Cons.prems(2) by simp_all
      let ?row = "\<lparr>ID = Suc (last_id t), Version = StepVersion s,
                 Description = StepDescription s, ExecutedAt = clock (clock_reads w)\<rparr>"
      let ?t1 = "\<lparr>rows = rows t @ [?row], last_id = Suc (last_id t)\<rparr>"
      note s1 = tx_Up_success [OF tx [unfolded None] k Cons.prems(3)]
      from Cons.IH [OF loop ks s1(2)] obtain n t' where
        l: "ledger (db w') = Some t'"
        and rw: "rows t' = rows ?t1 @ new_rows clock (clock_reads w1) (last_id ?t1) (take n (pending_in ex ss))"
        by blast
      have "rows t' = rows t @ new_rows clock (clock_reads w) (last_id t) (take (Suc n) (pending_in ex (s # ss)))"
        unfolding pa using rw s1(3) by simp
      with l show ?thesis by blast
    qed
  qed
qed

text \<open>Whatever the outcome, the loop only calls forward actions of pending steps, in order.\<close>

lemma Up_loop_calls_any:
  assumes "Up_loop clock fault ex ss w = (r, w')"
  shows "\<exists>k. calls w' = calls w @ map (\<lambda>p. CallUp (StepVersion p)) (take k (pending_in ex ss))
       \<and> (fault (statements w) = None \<and> pending_in ex ss \<noteq> [] \<longrightarrow> 0 < k)"
  using assms
proof (induction ss arbitrary: w)
  case Nil
  then show ?case by (simp add: pending_in_def)
next
  case (Cons s ss)
  show ?case
  proof (cases "ex (StepVersion s)")
    case True
    with Cons show ?thesis by (simp add: pending_in_def)
  next
    case False
    then have pa: "pending_in ex (s # ss) = s # pending_in ex ss" by (simp add: pending_in_def)
    obtain r1 w1 where tx: "Transaction fault (Up_tx clock fault s) w = (r1, w1)"
      by (cases "Transaction fault (Up_tx clock fault s) w")
    note c1 = tx_Up_calls [OF tx]
    show ?thesis
    proof (cases r1)
      case (Some e1)
      with Cons.prems(1) False tx have w': "w' = w1" by simp
      show ?thesis
      proof (cases "fault (statements w)")
        case None
        with c1 w' have "calls w' = calls w @ map (\<lambda>p. CallUp (StepVersion p)) (take 1 (pending_in ex (s # ss)))
            \<and> (fault (statements w) = None \<and> pending_in ex (s # ss) \<noteq> [] \<longrightarrow> 0 < (1::nat))"
          unfolding pa by simp
        then show ?thesis by blast
      next
        case (Some msg)
        with c1 w' have "calls w' = calls w @ map (\<lambda>p. CallUp (StepVersion p)) (take 0 (pending_in ex (s # ss)))
            \<and> (fault (statements w) = None \<and> pending_in ex (s # ss) \<noteq> [] \<longrightarrow> 0 < (0::nat))"
          by simp
        then show ?thesis by blast
      qed
    next
      case None
      with Cons.prems(1) False tx have loop: "Up_loop clock fault ex ss w1 = (r, w')" by simp
      from Cons.IH [OF loop] obtain k where
        k: "calls w' = calls w1 @ map (\<lambda>p. CallUp (StepVersion p)) (take k (pending_in ex ss))"
        by blast
      from tx_Up_success_calls [OF tx [unfolded None]] k
      have "calls w' = calls w @ map (\<lambda>p. CallUp (StepVersion p)) (take (Suc k) (pending_in ex (s # ss)))
            \<and> (fault (statements w) = None \<and> pending_in ex (s # ss) \<noteq> [] \<longrightarrow> 0 < Suc k)"
        unfolding pa by simp
      then show ?thesis by blast
    qed
  qed
qed



subsection \<open>\<^verbatim>\<open>Up\<close> as a whole\<close>

lemma executedMap_of_foldl:
  "foldl (\<lambda>executedMap migration. executedMap(Version migration := True)) f rs v
     = (f v \<or> v \<in> Version ` set rs)"
  by (induction rs arbitrary: f) auto

lemma executedMap_of_iff: "executedMap_of rs v = (v \<in> Version ` set rs)"
  by (simp add: executedMap_of_def executedMap_of_foldl)

lemma rows_initial_table: "rows (initial_table w) = ledger_rows w"
  by (cases "ledger (db w)") (simp_all add: initial_table_def ledger_rows_def)

lemma last_id_initial_table: "last_id (initial_table w) = ledger_last_id w"
  by (cases "ledger (db w)") (simp_all add: initial_table_def ledger_last_id_def)

lemma pending_in_executedMap_of:
  "pending_in (executedMap_of (ledger_rows w)) (migrations m) = pending m w"
  by (simp add: pending_in_def pending_def executedMap_of_iff)

lemma Up_unfold:
  "Up clock fault m w =
     (case fault (statements w) of
        Some msg \<Rightarrow>
          (Some (ErrorfW ''failed to initialize migrations table'' (StoreError msg)),
           w\<lparr>statements := Suc (statements w)\<rparr>)
      | None \<Rightarrow>
          (case fault (Suc (statements w)) of
             Some msg \<Rightarrow>
               (Some (ErrorfW ''failed to fetch executed migrations'' (StoreError msg)), started w)
           | None \<Rightarrow>
               Up_loop clock fault (executedMap_of (ledger_rows w)) (migrations m) (started w)))"
proof (cases "ledger (db w)")
  case None
  then show ?thesis
    by (auto simp: Up_def Initialize_def AutoMigrate_def Find_def send_def started_def
        initial_table_def ledger_rows_def split: option.splits)
next
  case (Some t)
  then have dbeq: "(db w)\<lparr>ledger := Some t\<rparr> = db w" by (cases "db w") simp
  from Some show ?thesis
    by (auto simp: Up_def Initialize_def AutoMigrate_def Find_def send_def started_def
        initial_table_def ledger_rows_def dbeq split: option.splits)
qed

lemma Up_started:
  "fault (statements w) = None \<Longrightarrow> fault (Suc (statements w)) = None \<Longrightarrow>
   Up clock fault m w =
     Up_loop clock fault (executedMap_of (ledger_rows w)) (pending m w) (started w)"
  using Up_loop_filter [of clock fault "executedMap_of (ledger_rows w)" "migrations m" "started w"]
  by (simp add: Up_unfold pending_in_executedMap_of)

lemma Up_success_started:
  assumes "Up clock fault m w = (None, w')"
  shows "fault (statements w) = None" and "fault (Suc (statements w)) = None"
  using assms by (auto simp: Up_unfold split: option.splits)

lemma Up_run_error_started:
  assumes "fst (Up clock fault m w) = Some (ErrorfW (''failed to run migration '' @ v) e)"
  shows "fault (statements w) = None" and "fault (Suc (statements w)) = None"
  using assms by (auto simp: Up_unfold split: option.splits)

lemma ledger_started: "ledger (db (started w)) = Some (initial_table w)"
  by (simp add: started_def)

lemma started_fields:
  "clock_reads (started w) = clock_reads w" "calls (started w) = calls w"
  "statements (started w) = Suc (Suc (statements w))" "store (db (started w)) = store (db w)"
  by (simp_all add: started_def)

lemma pending_in_pending:
  "pending_in (executedMap_of (ledger_rows w)) (pending m w) = pending m w"
  using pending_in_idem [of "executedMap_of (ledger_rows w)" "migrations m"]
  by (simp add: pending_in_executedMap_of)

lemma Up_success:
  assumes "Up clock fault m w = (None, w')" and "forward_keeps_ledger m"
  shows "ledger (db w') =
           Some \<lparr>rows = ledger_rows w @ new_rows clock (clock_reads w) (ledger_last_id w) (pending m w),
                 last_id = ledger_last_id w + length (pending m w)\<rparr>"
    and "clock_reads w' = clock_reads w + length (pending m w)"
    and "statements w' = statements w + 2 + 3 * length (pending m w)"
    and "distinct (map StepVersion (pending m w))"
proof -
  let ?ex = "executedMap_of (ledger_rows w)"
  note f = Up_success_started [OF assms(1)]
  have loop: "Up_loop clock fault ?ex (pending m w) (started w) = (None, w')"
    using assms(1) Up_started [OF f] by simp
  have k: "\<forall>s \<in> set (pending m w). keeps_ledger (StepUp s)"
    using assms(2) by (simp add: forward_keeps_ledger_def pending_def)
  from Up_loop_success [OF loop k ledger_started]
  show "ledger (db w') =
           Some \<lparr>rows = ledger_rows w @ new_rows clock (clock_reads w) (ledger_last_id w) (pending m w),
                 last_id = ledger_last_id w + length (pending m w)\<rparr>"
    and "clock_reads w' = clock_reads w + length (pending m w)"
    and "statements w' = statements w + 2 + 3 * length (pending m w)"
    and "distinct (map StepVersion (pending m w))"
    by (simp_all add: pending_in_pending rows_initial_table last_id_initial_table started_fields)
qed

lemma Up_success_calls:
  assumes "Up clock fault m w = (None, w')"
  shows "calls w' = calls w @ map (\<lambda>p. CallUp (StepVersion p)) (pending m w)"
proof -
  note f = Up_success_started [OF assms(1)]
  have loop: "Up_loop clock fault (executedMap_of (ledger_rows w)) (pending m w) (started w) = (None, w')"
    using assms(1) Up_started [OF f] by simp
  from Up_loop_success_calls [OF loop] show ?thesis
    by (simp add: pending_in_pending started_fields)
qed

lemma ledger_rows_after_Up:
  assumes "Up clock fault m w = (None, w')" and "forward_keeps_ledger m"
  shows "ledger_rows w' =
           ledger_rows w @ new_rows clock (clock_reads w) (ledger_last_id w) (pending m w)"
  using Up_success(1) [OF assms] by (simp add: ledger_rows_def)

lemma nothing_pending_after_Up:
  assumes "Up clock fault m w = (None, w')" and "forward_keeps_ledger m"
  shows "pending m w' = []"
proof -
  have "StepVersion s \<in> Version ` set (ledger_rows w')" if "s \<in> set (migrations m)" for s
  proof (cases "StepVersion s \<in> Version ` set (ledger_rows w)")
    case True
    then show ?thesis by (auto simp: ledger_rows_after_Up [OF assms])
  next
    case False
    with that have "s \<in> set (pending m w)" by (simp add: pending_def)
    then have "StepVersion s \<in> set (map StepVersion (pending m w))" by simp
    then have "StepVersion s \<in> set (map Version (new_rows clock (clock_reads w) (ledger_last_id w) (pending m w)))"
      by (simp only: map_Version_new_rows)
    then show ?thesis by (auto simp: ledger_rows_after_Up [OF assms])
  qed
  then show ?thesis by (simp add: pending_def)
qed

lemma Up_nothing_pending:
  assumes "pending m w = []" and "ledger (db w) \<noteq> None"
    and "fault (statements w) = None" and "fault (Suc (statements w)) = None"
  shows "Up clock fault m w = (None, w\<lparr>statements := Suc (Suc (statements w))\<rparr>)"
proof -
  from assms(2) obtain t where t: "ledger (db w) = Some t" by auto
  then have "initial_table w = t" by (simp add: initial_table_def)
  with t have "(db w)\<lparr>ledger := Some (initial_table w)\<rparr> = db w" by (cases "db w") simp
  then have w: "started w = w\<lparr>statements := Suc (Suc (statements w))\<rparr>"
    by (simp add: started_def)
  show ?thesis
    by (simp add: Up_started [OF assms(3,4)] assms(1) w)
qed

lemmas engine_defs =
  Up_def Initialize_def AutoMigrate_def Find_def executedMap_of_def Transaction_def Up_tx_def
  call_Up_def time_Now_def Create_def send_def Let_def Register_def NewMigrator_def
  counting_step_def failing_step_def wiping_step_def step_001_def step_002_def step_003_def
  registry_def fresh_world_def ticking_def migrated_world_def three_rows_def reliable_def
  unreachable_def

lemma Up_registry_fresh: "Up ticking reliable registry fresh_world = (None, migrated_world)"
  by (simp add: engine_defs)

lemma counting_step_keeps_ledger:
  "keeps_ledger (StepUp (counting_step v d))" "keeps_ledger (StepDown (counting_step v d))"
  by (auto simp: keeps_ledger_def counting_step_def)

lemma failing_step_keeps_ledger:
  "keeps_ledger (StepUp (failing_step v d))" "keeps_ledger (StepDown (failing_step v d))"
  by (auto simp: keeps_ledger_def failing_step_def)

lemma registry_keeps_ledger: "forward_keeps_ledger registry" "backward_keeps_ledger registry"
  by (simp_all add: forward_keeps_ledger_def backward_keeps_ledger_def registry_def Register_def
      NewMigrator_def step_001_def step_002_def step_003_def counting_step_keeps_ledger)

text \<open>
  C3, as amended. Let no forward action write to the ledger table. After an \<^verbatim>\<open>Up\<close> that
  returned \<^verbatim>\<open>nil\<close>, a second \<^verbatim>\<open>Up\<close> with the same registered steps, whose two statements
  (the creation of the table if missing and the read of the ledger) the store carries out,
  returns \<^verbatim>\<open>nil\<close>, calls no closure, inserts no record and leaves the database as it was:
  only the count of statements sent has grown by two.
\<close>

theorem Up_idempotent:
  assumes "forward_keeps_ledger m"
    and "Up clock fault m w = (None, w')"
    and "fault' (statements w') = None"
    and "fault' (Suc (statements w')) = None"
  shows "Up clock' fault' m w' = (None, w'\<lparr>statements := Suc (Suc (statements w'))\<rparr>)"
proof -
  have "ledger (db w') \<noteq> None" using Up_success(1) [OF assms(2,1)] by simp
  from Up_nothing_pending [OF nothing_pending_after_Up [OF assms(2,1)] this assms(3,4)]
  show ?thesis .
qed

theorem Up_idempotent_witness:
  "forward_keeps_ledger registry
   \<and> Up ticking reliable registry fresh_world = (None, migrated_world)
   \<and> reliable (statements migrated_world) = None
   \<and> reliable (Suc (statements migrated_world)) = None
   \<and> Up ticking reliable registry migrated_world = (None, migrated_world\<lparr>statements := 13\<rparr>)"
proof -
  have a: "reliable (statements migrated_world) = None"
    and b: "reliable (Suc (statements migrated_world)) = None"
    by (simp_all add: reliable_def)
  from Up_idempotent [OF registry_keeps_ledger(1) Up_registry_fresh a b, of ticking]
    registry_keeps_ledger(1) Up_registry_fresh a b
  show ?thesis by (simp add: migrated_world_def)
qed

text \<open>
  The claim C3 as written is about every state and every list of steps. A forward action
  receives the transaction and can write to the ledger: when the second step deletes the
  rows of the \<^verbatim>\<open>migrations\<close> table, the first \<^verbatim>\<open>Up\<close> returns \<^verbatim>\<open>nil\<close> and the second \<^verbatim>\<open>Up\<close>
  runs the first step again. And when the store refuses the statements of the second
  \<^verbatim>\<open>Up\<close>, it returns an error.
\<close>

theorem Up_idempotent_counterexample:
  "fst (Up ticking reliable wiping_registry fresh_world) = None
   \<and> calls (snd (Up ticking reliable wiping_registry fresh_world))
       = [CallUp ''001_create_users_table'', CallUp ''002_add_user_indexes'']
   \<and> calls (snd (Up ticking reliable wiping_registry
                  (snd (Up ticking reliable wiping_registry fresh_world))))
       = [CallUp ''001_create_users_table'', CallUp ''002_add_user_indexes'',
          CallUp ''001_create_users_table'']
   \<and> Up ticking reliable registry fresh_world = (None, migrated_world)
   \<and> fst (Up ticking unreachable registry migrated_world)
       = Some (ErrorfW ''failed to initialize migrations table'' (StoreError ''connection refused''))"
  by (simp add: engine_defs wiping_registry_def)


end
